theory Spec2Isabelle
  imports Main "HOL-Library.Sublist"
begin

section \<open>Strings of the notebook cell\<close>

text \<open>
  Cell texts, commands and terminal output are JavaScript strings; they are modelled as
  \<open>string\<close>, one \<open>char\<close> per code unit below 256.  The three library functions that
  \<open>doExecution\<close> applies to the cell text are written out: \<open>split("\n")\<close>,
  \<open>trim()\<close> and \<open>join("; ")\<close>.
\<close>

definition LF :: char where
  "LF = CHR 0x0A"

definition ESC :: char where
  "ESC = CHR 0x1B"

text \<open>\<open>String.prototype.split\<close> with a one-character separator: the empty string gives one
  empty piece, and a trailing separator gives a trailing empty piece.\<close>

fun js_split :: "char \<Rightarrow> string \<Rightarrow> string list" where
  "js_split sep [] = [[]]"
| "js_split sep (c # cs) =
     (if c = sep then [] # js_split sep cs
      else (case js_split sep cs of
              [] \<Rightarrow> [[c]]
            | l # ls \<Rightarrow> (c # l) # ls))"

text \<open>The white space and line terminators that \<open>String.prototype.trim\<close> removes, among
  the code units below 256: TAB, LF, VT, FF, CR, SP and NBSP.\<close>

definition is_space :: "char \<Rightarrow> bool" where
  "is_space c \<longleftrightarrow> c \<in> {CHR 0x09, CHR 0x0A, CHR 0x0B, CHR 0x0C, CHR 0x0D, CHR 0x20, CHR 0xA0}"

definition trim :: "string \<Rightarrow> string" where
  "trim s = rev (dropWhile is_space (rev (dropWhile is_space s)))"

text \<open>\<open>Array.prototype.join\<close>.\<close>

fun join :: "string \<Rightarrow> string list \<Rightarrow> string" where
  "join sep [] = []"
| "join sep [x] = x"
| "join sep (x # y # ys) = x @ sep @ join sep (y # ys)"

text \<open>Lines 81 to 85 of \<open>doExecution\<close>: split at line feeds, trim every line, and keep the
  lines that are not empty (\<open>filter(Boolean)\<close>: the empty string is the only falsy string).\<close>

definition commands_of :: "string \<Rightarrow> string list" where
  "commands_of text = filter (\<lambda>command. command \<noteq> []) (map trim (js_split LF text))"

section \<open>Output codec\<close>

text \<open>
  Modelled from the spec: \<open>ansiRegex\<close>, the regular expression imported from
  \<open>./ansiRegex\<close>, whose file is not among the sources.  The specification describes it as
  recognising "ANSI escape/color control sequences".  It is modelled by the length of the
  sequence recognised at the head of a text (0 when there is none), for the control
  sequences that terminals use for colour and cursor control: ESC, an opening bracket, any
  number of parameter characters (digits and semicolons), and one final letter.
\<close>

definition is_param :: "char \<Rightarrow> bool" where
  "is_param c \<longleftrightarrow> c \<in> set ''0123456789;''"

definition is_final :: "char \<Rightarrow> bool" where
  "is_final c \<longleftrightarrow> c \<in> set ''ABCDEFGHIJKLMNOPQRSTUVWXYZabcdefghijklmnopqrstuvwxyz''"

fun ansiRegex :: "string \<Rightarrow> nat" where
  "ansiRegex (e # b # rest) =
     (if e = ESC \<and> b = CHR ''[''
      then (case dropWhile is_param rest of
              [] \<Rightarrow> 0
            | f # _ \<Rightarrow> if is_final f then length (takeWhile is_param rest) + 3 else 0)
      else 0)"
| "ansiRegex _ = 0"

text \<open>\<open>data.replace(rx, "")\<close> for a global regular expression \<open>rx\<close>, given by the length
  of its match at the head of the remaining text: one pass from left to right, every match
  is dropped and the scan goes on behind it; a character where nothing matches is kept.\<close>

function replace_all :: "(string \<Rightarrow> nat) \<Rightarrow> string \<Rightarrow> string" where
  "replace_all rx [] = []"
| "replace_all rx (c # cs) =
     (if rx (c # cs) = 0 then c # replace_all rx cs
      else replace_all rx (drop (rx (c # cs)) (c # cs)))"
  by pat_completeness auto
termination
  by (relation "measure (\<lambda>(rx, s). length s)") auto

text \<open>Line 159: \<open>data.replace(ansiRegex, "")\<close>.\<close>

definition strip :: "string \<Rightarrow> string" where
  "strip data = replace_all ansiRegex data"

section \<open>The controller\<close>

text \<open>
  A \<open>NotebookCellExecution\<close> is an object of the host; the model names it by the
  execution order that line 77 stores in it, which no two executions share.
\<close>

record CommandExecution =
  command :: string
  execution :: nat
  uri :: string

text \<open>What the controller does to the host and to the pseudo terminal, in the order of
  the calls.  Time stamps (\<open>Date.now()\<close>) are left out.\<close>

datatype item =
    ErrorItem string
  | DataJson string string bool nat
  | FinishedJson string
  | TextItem string

datatype effect =
    ExecStart nat
  | ClearOutput nat
  | AppendOutput nat "item list"
  | ReplaceOutput nat "item list"
  | ExecEnd nat bool
  | PtyWrite string
  | PtySetCols nat
  | PtyTerminate
  | PtyWriteCommand string nat

text \<open>A call of \<open>pty.writeCommand\<close> whose promise has not settled yet, with the variables
  that its two closures \<open>onData\<close> and \<open>end\<close> share (lines 141 and 142).\<close>

record in_flight =
  pce :: CommandExecution
  dataParts :: "string list"
  firstCommand :: bool

text \<open>
  The fields of the class (\<open>executionQueue\<close>, \<open>isExecuting\<close>, \<open>executionOrder\<close>) and the
  state of its collaborators that the code reads: the cancellation tokens
  (\<open>isCancellationRequested\<close>), the observers registered on them with the \<open>uri\<close> each one
  captured, the pending commands of the pseudo terminal, and the effects so far.

  Modelled from the spec: the width of the pseudo terminal (\<open>Pty\<close> is not among the
  sources).  \<open>getCols\<close> returns the width that \<open>setCols\<close> set last, here the field
  \<open>cols\<close>.
\<close>

record state =
  executionQueue :: "CommandExecution list"
  isExecuting :: "CommandExecution option"
  executionOrder :: nat
  cancelRequested :: "nat set"
  observers :: "(nat \<times> string) list"
  pending :: "in_flight list"
  cols :: nat
  effects :: "effect list"

definition init :: "nat \<Rightarrow> state" where
  "init n = \<lparr>executionQueue = [], isExecuting = None, executionOrder = 0,
     cancelRequested = {}, observers = [], pending = [], cols = n, effects = []\<rparr>"

text \<open>\<open>updateCommand\<close> is imported from a file that is not among the sources; it is a
  parameter of the model, \<open>Inl\<close> being the error it throws.\<close>

type_synonym transform = "string \<Rightarrow> nat \<Rightarrow> string + string"

definition emit :: "effect list \<Rightarrow> state \<Rightarrow> state" where
  "emit es st = st\<lparr>effects := effects st @ es\<rparr>"

text \<open>\<open>runExecutionQueue\<close>, lines 112 to 197.  The promise of \<open>writeCommand\<close> settles
  later: the call is recorded in \<open>pending\<close>.\<close>

function runExecutionQueue :: "transform \<Rightarrow> state \<Rightarrow> state" where
  "runExecutionQueue upd st =
     (if executionQueue st = [] \<or> isExecuting st \<noteq> None then st
      else
        let commandExecution = hd (executionQueue st);
            st1 = st\<lparr>executionQueue := tl (executionQueue st)\<rparr>
        in if execution commandExecution \<in> cancelRequested st1
           then runExecutionQueue upd st1
           else
             let st2 = st1\<lparr>isExecuting := Some commandExecution\<rparr>
             in case upd (command commandExecution) (execution commandExecution) of
                  Inl e \<Rightarrow>
                    (emit [ReplaceOutput (execution commandExecution) [ErrorItem e],
                           ExecEnd (execution commandExecution) False] st2)
                      \<lparr>isExecuting := None\<rparr>
                | Inr updatedCommand \<Rightarrow>
                    (emit [PtyWriteCommand updatedCommand (execution commandExecution)] st2)
                      \<lparr>pending := pending st2 @
                         [\<lparr>pce = commandExecution, dataParts = [], firstCommand = True\<rparr>]\<rparr>)"
  by pat_completeness auto
termination
  by (relation "measure (\<lambda>(upd, st). length (executionQueue st))") auto

declare runExecutionQueue.simps [simp del]

text \<open>The observer that \<open>doExecution\<close> registers on the token (lines 95 to 101), for the
  execution \<open>ex\<close> and the \<open>uri\<close> it captured.\<close>

definition onCancellationRequested :: "nat \<Rightarrow> string \<Rightarrow> state \<Rightarrow> state" where
  "onCancellationRequested ex u st =
     (if map_option uri (isExecuting st) = Some u then emit [PtyTerminate] st
      else emit [ExecEnd ex False] st)"

text \<open>\<open>doExecution\<close>, lines 75 to 110, for a cell with the given text and document uri.\<close>

definition doExecution :: "transform \<Rightarrow> string \<Rightarrow> string \<Rightarrow> state \<Rightarrow> state" where
  "doExecution upd text u st =
     (let ex = Suc (executionOrder st);
          st1 = emit [ExecStart ex, ClearOutput ex] (st\<lparr>executionOrder := ex\<rparr>);
          commands = commands_of text
      in if commands = []
         then (emit [ExecEnd ex True] st1)\<lparr>isExecuting := None\<rparr>
         else runExecutionQueue upd
                (st1\<lparr>observers := observers st1 @ [(ex, u)],
                     executionQueue := executionQueue st1 @
                       [\<lparr>command = join ''; '' commands, execution = ex, uri = u\<rparr>]\<rparr>))"

text \<open>The method \<open>onData\<close> of the class (lines 59 to 63) and \<open>setCols\<close> (lines 65 to 67).\<close>

definition onData :: "string \<Rightarrow> string \<Rightarrow> state \<Rightarrow> state" where
  "onData u data st =
     (if map_option uri (isExecuting st) = Some u then emit [PtyWrite data] st else st)"

definition setCols :: "nat \<Rightarrow> state \<Rightarrow> state" where
  "setCols n st = (emit [PtySetCols n] st)\<lparr>cols := n\<rparr>"

text \<open>The closure \<open>onData\<close> of lines 144 to 163, on the variables it shares with \<open>end\<close>;
  it reads the token and the width of the terminal.\<close>

definition onData_cb :: "nat set \<Rightarrow> nat \<Rightarrow> in_flight \<Rightarrow> string \<Rightarrow> in_flight \<times> effect list" where
  "onData_cb cancelled w p data =
     (if execution (pce p) \<in> cancelled then (p, [])
      else (p\<lparr>firstCommand := False, dataParts := dataParts p @ [strip data]\<rparr>,
            [AppendOutput (execution (pce p))
               [DataJson (uri (pce p)) data (firstCommand p) w]]))"

text \<open>The closure \<open>end\<close> of lines 165 to 180.\<close>

definition end_cb :: "in_flight \<Rightarrow> bool \<Rightarrow> effect list" where
  "end_cb p success =
     (if \<not> firstCommand p
      then [ReplaceOutput (execution (pce p))
              [FinishedJson (uri (pce p)), TextItem (join [LF] (dataParts p))]]
      else [])
     @ [ExecEnd (execution (pce p)) success]"

section \<open>Events\<close>

text \<open>
  What can happen to the controller: the host runs a cell, the host requests the
  cancellation of an execution, the renderer sends input or a new width, and the pseudo
  terminal delivers a chunk of output to a pending command or settles its promise
  (resolved: \<open>True\<close>, rejected: \<open>False\<close>).  A cancellation can only be requested for
  an execution that has been created, and the pseudo terminal only calls back for a command
  that is pending.
\<close>

datatype event =
    Submit string string
  | Cancel nat
  | Input string string
  | Resize nat
  | PtyChunk nat string
  | PtySettle nat bool

definition pending_of :: "nat \<Rightarrow> state \<Rightarrow> in_flight option" where
  "pending_of ex st = find (\<lambda>p. execution (pce p) = ex) (pending st)"

text \<open>A cancellation sets the token and then calls the observer, if \<open>doExecution\<close>
  registered one for this execution.\<close>

definition cancel :: "nat \<Rightarrow> state \<Rightarrow> state" where
  "cancel ex st =
     (let st1 = st\<lparr>cancelRequested := insert ex (cancelRequested st)\<rparr>
      in case map_of (observers st) ex of
           None \<Rightarrow> st1
         | Some u \<Rightarrow> onCancellationRequested ex u st1)"

text \<open>The pseudo terminal calls the \<open>onData\<close> closure of the pending command; the
  closure's variables are written back in place.\<close>

fun update_first :: "('a \<Rightarrow> bool) \<Rightarrow> 'a \<Rightarrow> 'a list \<Rightarrow> 'a list" where
  "update_first P y [] = []"
| "update_first P y (x # xs) = (if P x then y # xs else x # update_first P y xs)"

definition chunk :: "nat \<Rightarrow> string \<Rightarrow> state \<Rightarrow> state" where
  "chunk ex data st =
     (case pending_of ex st of
        None \<Rightarrow> st
      | Some p \<Rightarrow>
          let (p', es) = onData_cb (cancelRequested st) (cols st) p data
          in emit es (st\<lparr>pending :=
                 update_first (\<lambda>q. execution (pce q) = ex) p' (pending st)\<rparr>))"

text \<open>Lines 184 to 196: \<open>then\<close> or \<open>catch\<close> calls \<open>end\<close>, and \<open>finally\<close> clears the
  active slot and runs the queue.\<close>

definition settle :: "transform \<Rightarrow> nat \<Rightarrow> bool \<Rightarrow> state \<Rightarrow> state" where
  "settle upd ex success st =
     (case pending_of ex st of
        None \<Rightarrow> st
      | Some p \<Rightarrow>
          runExecutionQueue upd
            ((emit (end_cb p success) st)
               \<lparr>pending := filter (\<lambda>q. execution (pce q) \<noteq> ex) (pending st),
                isExecuting := None\<rparr>))"

fun step :: "transform \<Rightarrow> state \<Rightarrow> event \<Rightarrow> state" where
  "step upd st (Submit text u) = doExecution upd text u st"
| "step upd st (Cancel ex) =
     (if 0 < ex \<and> ex \<le> executionOrder st then cancel ex st else st)"
| "step upd st (Input u data) = onData u data st"
| "step upd st (Resize n) = setCols n st"
| "step upd st (PtyChunk ex data) = chunk ex data st"
| "step upd st (PtySettle ex success) = settle upd ex success st"

definition run :: "transform \<Rightarrow> state \<Rightarrow> event list \<Rightarrow> state" where
  "run upd st evs = foldl (step upd) st evs"

text \<open>Transforms for the examples: one that leaves every command as it is, and one
  that fails on the command \<open>bad\<close>.\<close>

definition no_variables :: transform where
  "no_variables c ex = Inr c"

definition fails_on_bad :: transform where
  "fails_on_bad c ex = (if c = ''bad'' then Inl ''unknown variable'' else Inr c)"


section \<open>Invariants of the reachable states\<close>





subsection \<open>What the codec removes\<close>

text \<open>Every ESC of the text begins a recognised sequence.\<close>

fun escapes_recognised :: "string \<Rightarrow> bool" where
  "escapes_recognised [] = True"
| "escapes_recognised (c # cs) =
     ((c = ESC \<longrightarrow> 0 < ansiRegex (c # cs)) \<and> escapes_recognised cs)"

text \<open>\<open>deletes s t\<close>: the text \<open>t\<close> arises from \<open>s\<close> by deleting recognised sequences,
  each one whole and at a place where the expression matches; every other character is
  kept, in order.\<close>

function deletes :: "string \<Rightarrow> string \<Rightarrow> bool" where
  "deletes [] t = (t = [])"
| "deletes (c # cs) t =
     (if ansiRegex (c # cs) = 0
      then (case t of [] \<Rightarrow> False | d # ds \<Rightarrow> d = c \<and> deletes cs ds)
      else (deletes (drop (ansiRegex (c # cs)) (c # cs)) t \<or>
            (case t of [] \<Rightarrow> False | d # ds \<Rightarrow> d = c \<and> deletes cs ds)))"
  by pat_completeness auto
termination
  by (relation "measure (\<lambda>(s, t). length s)") auto

subsection \<open>The output of one execution\<close>














subsection \<open>The lines of a cell, in the words of the specification\<close>




subsection \<open>Mutual exclusion and progress\<close>

text \<open>The pending commands are exactly the command of the active request, if there is
  one.\<close>

definition exclusive :: "state \<Rightarrow> bool" where
  "exclusive st \<longleftrightarrow>
     map pce (pending st) = (case isExecuting st of None \<Rightarrow> [] | Some a \<Rightarrow> [a])"

text \<open>Submissions, and those of a cell without a non-blank line.\<close>

fun blank_cell :: "event \<Rightarrow> bool" where
  "blank_cell (Submit t u) = (commands_of t = [])"
| "blank_cell ev = False"

fun is_submit :: "event \<Rightarrow> bool" where
  "is_submit (Submit t u) = True"
| "is_submit ev = False"

section \<open>Basic facts\<close>

lemma emit_Nil: "emit [] st = st"
  by (simp add: emit_def)

lemma find_Some_set: "find P xs = Some p \<Longrightarrow> p \<in> set xs \<and> P p"
  by (induction xs) (auto split: if_splits)

lemma update_first_same: "find P xs = Some p \<Longrightarrow> update_first P p xs = xs"
  by (induction xs) (auto split: if_splits)


subsection \<open>The four ways through \<open>runExecutionQueue\<close>\<close>

lemma drain_idle:
  "executionQueue st = [] \<or> isExecuting st \<noteq> None \<Longrightarrow> runExecutionQueue upd st = st"
  by (subst runExecutionQueue.simps) simp

lemma drain_skip:
  assumes "executionQueue st = r # rs" and "isExecuting st = None"
    and "execution r \<in> cancelRequested st"
  shows "runExecutionQueue upd st = runExecutionQueue upd (st\<lparr>executionQueue := rs\<rparr>)"
  using assms by (subst runExecutionQueue.simps) simp

lemma drain_fail:
  assumes "executionQueue st = r # rs" and "isExecuting st = None"
    and "execution r \<notin> cancelRequested st"
    and "upd (command r) (execution r) = Inl e"
  shows "runExecutionQueue upd st =
           st\<lparr>executionQueue := rs, isExecuting := None,
              effects := effects st @
                [ReplaceOutput (execution r) [ErrorItem e], ExecEnd (execution r) False]\<rparr>"
  using assms by (subst runExecutionQueue.simps) (simp add: emit_def)

lemma drain_start:
  assumes "executionQueue st = r # rs" and "isExecuting st = None"
    and "execution r \<notin> cancelRequested st"
    and "upd (command r) (execution r) = Inr c"
  shows "runExecutionQueue upd st =
           st\<lparr>executionQueue := rs, isExecuting := Some r,
              effects := effects st @ [PtyWriteCommand c (execution r)],
              pending := pending st @ [\<lparr>pce = r, dataParts = [], firstCommand = True\<rparr>]\<rparr>"
  using assms by (subst runExecutionQueue.simps) (simp add: emit_def)

subsection \<open>Observers stay registered\<close>


















subsection \<open>The queue run in one step\<close>

lemma drain_explicit:
  assumes "isExecuting st = None"
  shows "runExecutionQueue upd st =
    (case dropWhile (\<lambda>r. execution r \<in> cancelRequested st) (executionQueue st) of
       [] \<Rightarrow> st\<lparr>executionQueue := []\<rparr>
     | r # rs \<Rightarrow>
         (case upd (command r) (execution r) of
            Inl e \<Rightarrow>
              st\<lparr>executionQueue := rs, isExecuting := None,
                 effects := effects st @
                   [ReplaceOutput (execution r) [ErrorItem e], ExecEnd (execution r) False]\<rparr>
          | Inr c \<Rightarrow>
              st\<lparr>executionQueue := rs, isExecuting := Some r,
                 effects := effects st @ [PtyWriteCommand c (execution r)],
                 pending := pending st @
                   [\<lparr>pce = r, dataParts = [], firstCommand = True\<rparr>]\<rparr>))"
  using assms
proof (induction "executionQueue st" arbitrary: st)
  case Nil
  then show ?case by (simp add: drain_idle)
next
  case (Cons r rs)
  note q = Cons.hyps(2) [symmetric]
  note idle = Cons.prems
  show ?case
  proof (cases "execution r \<in> cancelRequested st")
    case True
    have "runExecutionQueue upd st = runExecutionQueue upd (st\<lparr>executionQueue := rs\<rparr>)"
      using q idle True by (rule drain_skip)
    also have "\<dots> = (case dropWhile (\<lambda>r. execution r \<in> cancelRequested st) rs of
       [] \<Rightarrow> st\<lparr>executionQueue := []\<rparr>
     | r # rs \<Rightarrow>
         (case upd (command r) (execution r) of
            Inl e \<Rightarrow>
              st\<lparr>executionQueue := rs, isExecuting := None,
                 effects := effects st @
                   [ReplaceOutput (execution r) [ErrorItem e], ExecEnd (execution r) False]\<rparr>
          | Inr c \<Rightarrow>
              st\<lparr>executionQueue := rs, isExecuting := Some r,
                 effects := effects st @ [PtyWriteCommand c (execution r)],
                 pending := pending st @
                   [\<lparr>pce = r, dataParts = [], firstCommand = True\<rparr>]\<rparr>))"
      using Cons.hyps(1) [of "st\<lparr>executionQueue := rs\<rparr>"] idle
      by (simp cong: list.case_cong sum.case_cong)
    finally show ?thesis using q True by simp
  next
    case False
    show ?thesis
    proof (cases "upd (command r) (execution r)")
      case (Inl e)
      show ?thesis using q False Inl
        by (simp add: drain_fail [of st r rs upd, OF q idle False Inl])
    next
      case (Inr c)
      show ?thesis using q False Inr
        by (simp add: drain_start [of st r rs upd, OF q idle False Inr])
    qed
  qed
qed

lemma drain_none:
  assumes "isExecuting st = None"
    and "dropWhile (\<lambda>r. execution r \<in> cancelRequested st) (executionQueue st) = []"
  shows "runExecutionQueue upd st = st\<lparr>executionQueue := []\<rparr>"
  unfolding drain_explicit [OF assms(1)] assms(2) by simp

lemma drain_failed:
  assumes "isExecuting st = None"
    and "dropWhile (\<lambda>r. execution r \<in> cancelRequested st) (executionQueue st) = r # rs"
    and "upd (command r) (execution r) = Inl e"
  shows "runExecutionQueue upd st =
           st\<lparr>executionQueue := rs, isExecuting := None,
              effects := effects st @
                [ReplaceOutput (execution r) [ErrorItem e], ExecEnd (execution r) False]\<rparr>"
  unfolding drain_explicit [OF assms(1)] assms(2) using assms(3) by simp

lemma drain_started:
  assumes "isExecuting st = None"
    and "dropWhile (\<lambda>r. execution r \<in> cancelRequested st) (executionQueue st) = r # rs"
    and "upd (command r) (execution r) = Inr c"
  shows "runExecutionQueue upd st =
           st\<lparr>executionQueue := rs, isExecuting := Some r,
              effects := effects st @ [PtyWriteCommand c (execution r)],
              pending := pending st @ [\<lparr>pce = r, dataParts = [], firstCommand = True\<rparr>]\<rparr>"
  unfolding drain_explicit [OF assms(1)] assms(2) using assms(3) by simp

subsection \<open>Commands come from their cells\<close>








lemma run_snoc: "run upd st (evs @ [ev]) = step upd (run upd st evs) ev"
  by (simp add: run_def)


subsection \<open>The codec\<close>

lemma ansiRegex_ESC: "0 < ansiRegex (c # cs) \<Longrightarrow> c = ESC"
  by (cases cs) (auto split: if_splits)

lemma replace_all_no_ESC: "ESC \<notin> set s \<Longrightarrow> replace_all ansiRegex s = s"
proof (induction s)
  case Nil
  show ?case by simp
next
  case (Cons c cs)
  then have "ansiRegex (c # cs) = 0"
    using ansiRegex_ESC [of c cs] by auto
  with Cons show ?case by simp
qed

lemma escapes_recognised_drop: "escapes_recognised s \<Longrightarrow> escapes_recognised (drop n s)"
proof (induction s arbitrary: n)
  case Nil
  show ?case by simp
next
  case (Cons c cs)
  then show ?case by (cases n) simp_all
qed

lemma no_ESC_left: "escapes_recognised s \<Longrightarrow> ESC \<notin> set (replace_all ansiRegex s)"
proof (induction ansiRegex s rule: replace_all.induct)
  case 1
  show ?case by simp
next
  case (2 c cs)
  show ?case
  proof (cases "ansiRegex (c # cs) = 0")
    case True
    with "2.prems" have "c \<noteq> ESC" and "escapes_recognised cs" by auto
    with True "2.hyps"(1) show ?thesis by simp
  next
    case False
    have "escapes_recognised (drop (ansiRegex (c # cs)) (c # cs))"
      using "2.prems" by (rule escapes_recognised_drop)
    with False "2.hyps"(2) show ?thesis by simp
  qed
qed

lemma deletes_replace_all: "deletes s (replace_all ansiRegex s)"
proof (induction ansiRegex s rule: replace_all.induct)
  case 1
  show ?case by simp
next
  case (2 c cs)
  then show ?case by (cases "ansiRegex (c # cs) = 0") simp_all
qed

subsection \<open>Output streams\<close>



lemma map_update_first:
  "find P xs = Some x \<Longrightarrow> f y = f x \<Longrightarrow> map f (update_first P y xs) = map f xs"
  by (induction xs) (auto split: if_splits)


lemma chunk_none: "pending_of ex st = None \<Longrightarrow> chunk ex d st = st"
  by (simp add: chunk_def)

lemma chunk_dropped:
  assumes "pending_of ex st = Some p" and "ex \<in> cancelRequested st"
  shows "chunk ex d st = st"
proof -
  from assms(1) have f: "find (\<lambda>q. execution (pce q) = ex) (pending st) = Some p"
    by (simp add: pending_of_def)
  then have "execution (pce p) = ex"
    using find_Some_set [of "\<lambda>q. execution (pce q) = ex" "pending st" p] by simp
  with assms(2) have "onData_cb (cancelRequested st) (cols st) p d = (p, [])"
    by (simp add: onData_cb_def)
  with assms(1) f show ?thesis
    by (simp add: chunk_def update_first_same emit_Nil)
qed

lemma chunk_emitted:
  assumes "pending_of ex st = Some p" and "ex \<notin> cancelRequested st"
  shows "chunk ex d st =
     st\<lparr>pending := update_first (\<lambda>z. execution (pce z) = ex)
          (p\<lparr>firstCommand := False, dataParts := dataParts p @ [strip d]\<rparr>) (pending st),
        effects := effects st @
          [AppendOutput ex [DataJson (uri (pce p)) d (firstCommand p) (cols st)]]\<rparr>"
proof -
  from assms(1) have "find (\<lambda>q. execution (pce q) = ex) (pending st) = Some p"
    by (simp add: pending_of_def)
  then have "execution (pce p) = ex"
    using find_Some_set [of "\<lambda>q. execution (pce q) = ex" "pending st" p] by simp
  with assms show ?thesis
    by (simp add: chunk_def onData_cb_def emit_def)
qed


subsection \<open>The output agrees with the accepted chunks\<close>








































subsection \<open>Lines, trimmed\<close>


lemma js_split_not_Nil: "js_split sep s \<noteq> []"
  by (induction s) (auto split: list.splits)














subsection \<open>One command at a time, and where the queue stops\<close>


lemma exclusive_drain:
  assumes e: "exclusive st"
  shows "exclusive (runExecutionQueue upd st)"
proof (cases "isExecuting st")
  case (Some a)
  then show ?thesis using e by (simp add: drain_idle)
next
  case None
  with e have p: "pending st = []" by (simp add: exclusive_def)
  let ?q = "dropWhile (\<lambda>r. execution r \<in> cancelRequested st) (executionQueue st)"
  show ?thesis
  proof (cases ?q)
    case Nil
    show ?thesis unfolding drain_none [OF None Nil] using None p by (simp add: exclusive_def)
  next
    case (Cons r rs)
    show ?thesis
    proof (cases "upd (command r) (execution r)")
      case (Inl err)
      show ?thesis unfolding drain_failed [of st r rs upd, OF None Cons Inl]
        using p by (simp add: exclusive_def)
    next
      case (Inr cmd)
      show ?thesis unfolding drain_started [of st r rs upd, OF None Cons Inr]
        using p by (simp add: exclusive_def)
    qed
  qed
qed

lemma exclusive_step:
  assumes e: "exclusive st" and nb: "\<not> blank_cell ev"
  shows "exclusive (step upd st ev)"
proof (cases ev)
  case (Submit t u)
  with nb have "commands_of t \<noteq> []" by simp
  moreover have "exclusive (st\<lparr>executionOrder := Suc (executionOrder st),
       effects := effects st @
         [ExecStart (Suc (executionOrder st)), ClearOutput (Suc (executionOrder st))],
       observers := observers st @ [(Suc (executionOrder st), u)],
       executionQueue := executionQueue st @
         [\<lparr>command = join ''; '' (commands_of t), execution = Suc (executionOrder st),
           uri = u\<rparr>]\<rparr>)"
    using e by (simp add: exclusive_def)
  ultimately show ?thesis using Submit
    by (simp add: doExecution_def Let_def emit_def exclusive_drain)
next
  case (Cancel ex)
  then show ?thesis using e
    by (simp add: cancel_def onCancellationRequested_def emit_def exclusive_def Let_def
          split: option.splits)
next
  case (Input u d)
  then show ?thesis using e by (simp add: onData_def emit_def exclusive_def)
next
  case (Resize w)
  then show ?thesis using e by (simp add: setCols_def emit_def exclusive_def)
next
  case (PtyChunk ex d)
  show ?thesis
  proof (cases "pending_of ex st")
    case None
    then show ?thesis using e PtyChunk by (simp add: chunk_none)
  next
    case (Some p)
    show ?thesis
    proof (cases "ex \<in> cancelRequested st")
      case True
      then show ?thesis using e PtyChunk chunk_dropped [OF Some True] by simp
    next
      case False
      have "find (\<lambda>z. execution (pce z) = ex) (pending st) = Some p"
        using Some by (simp add: pending_of_def)
      then have "map pce (update_first (\<lambda>z. execution (pce z) = ex)
           (p\<lparr>firstCommand := False, dataParts := dataParts p @ [strip d]\<rparr>) (pending st)) =
         map pce (pending st)"
        by (rule map_update_first) simp
      then show ?thesis using e PtyChunk
        by (simp add: chunk_emitted [OF Some False] exclusive_def)
    qed
  qed
next
  case (PtySettle ex ok)
  show ?thesis
  proof (cases "pending_of ex st")
    case None
    then show ?thesis using e PtySettle by (simp add: settle_def)
  next
    case (Some p)
    then have p: "p \<in> set (pending st)" and ex: "execution (pce p) = ex"
      using find_Some_set [of "\<lambda>z. execution (pce z) = ex" "pending st" p]
      by (simp_all add: pending_of_def)
    from p e obtain a where "isExecuting st = Some a" and "map pce (pending st) = [a]"
      by (cases "isExecuting st") (auto simp add: exclusive_def)
    then have "pending st = [p]" using p by (cases "pending st") auto
    then have "exclusive (st\<lparr>effects := effects st @ end_cb p ok,
                  pending := filter (\<lambda>q. execution (pce q) \<noteq> ex) (pending st),
                  isExecuting := None\<rparr>)"
      using ex by (simp add: exclusive_def)
    then show ?thesis using PtySettle Some by (simp add: settle_def emit_def exclusive_drain)
  qed
qed

lemma exclusive_reachable:
  "\<forall>ev \<in> set evs. \<not> blank_cell ev \<Longrightarrow> exclusive (run upd (init n) evs)"
proof (induction evs rule: rev_induct)
  case Nil
  show ?case by (simp add: run_def init_def exclusive_def)
next
  case (snoc ev evs)
  then show ?case by (simp add: run_snoc exclusive_step)
qed

lemma one_pending_without_blank_cells:
  assumes "\<forall>ev \<in> set evs. \<not> blank_cell ev"
  shows "length (pending (run upd (init n) evs)) \<le> 1"
proof -
  have "length (map pce (pending (run upd (init n) evs))) \<le> 1"
    using exclusive_reachable [OF assms, of upd n]
    by (simp add: exclusive_def split: option.splits)
  then show ?thesis by simp
qed

lemma stalled_step:
  assumes "isExecuting st = None" and "pending st = []" and "\<not> is_submit ev"
  shows "executionQueue (step upd st ev) = executionQueue st \<and>
         isExecuting (step upd st ev) = None \<and> pending (step upd st ev) = []"
proof (cases ev)
  case (Submit t u)
  with assms(3) show ?thesis by simp
next
  case (Cancel ex)
  then show ?thesis using assms
    by (simp add: cancel_def onCancellationRequested_def emit_def Let_def split: option.splits)
next
  case (Input u d)
  then show ?thesis using assms by (simp add: onData_def emit_def)
next
  case (Resize w)
  then show ?thesis using assms by (simp add: setCols_def emit_def)
next
  case (PtyChunk ex d)
  then show ?thesis using assms by (simp add: chunk_def pending_of_def)
next
  case (PtySettle ex ok)
  then show ?thesis using assms by (simp add: settle_def pending_of_def)
qed

lemma stalled_run:
  assumes "isExecuting st = None" and "pending st = []" and "\<forall>ev \<in> set evs. \<not> is_submit ev"
  shows "executionQueue (run upd st evs) = executionQueue st \<and>
         isExecuting (run upd st evs) = None \<and> pending (run upd st evs) = []"
  using assms(3)
proof (induction evs rule: rev_induct)
  case Nil
  show ?case using assms(1,2) by (simp add: run_def)
next
  case (snoc ev evs)
  then have "executionQueue (run upd st evs) = executionQueue st"
    and i: "isExecuting (run upd st evs) = None" and p: "pending (run upd st evs) = []"
    by simp_all
  moreover have "\<not> is_submit ev" using snoc.prems by simp
  ultimately show ?case using stalled_step [OF i p, of ev upd] by (simp add: run_snoc)
qed

subsection \<open>A cancelled command stays pending until it settles\<close>









section \<open>Claims\<close>

text \<open>
  C1.  When the transform of the head request fails, the controller replaces the output
  of the execution by the error, ends it as failed and clears the active slot
  (\<open>drain_failed\<close>), but it returns without running the queue again.  Three cells are
  submitted, the second has a command the transform rejects, and the first command
  settles: the third request stays in the queue with nothing active and nothing pending,
  and its command is not written to the pseudo terminal.  In such a state only another
  submission runs the queue (\<open>stalled_run\<close>).
\<close>

theorem transform_failure_stalls_queue:
  "run fails_on_bad (init 80)
     [Submit ''a'' ''u1'', Submit ''bad'' ''u2'', Submit ''c'' ''u3'', PtySettle 1 True] =
   \<lparr>executionQueue = [\<lparr>command = ''c'', execution = 3, uri = ''u3''\<rparr>],
    isExecuting = None, executionOrder = 3, cancelRequested = {},
    observers = [(1, ''u1''), (2, ''u2''), (3, ''u3'')], pending = [], cols = 80,
    effects = [ExecStart 1, ClearOutput 1, PtyWriteCommand ''a'' 1, ExecStart 2,
      ClearOutput 2, ExecStart 3, ClearOutput 3, ExecEnd 1 True,
      ReplaceOutput 2 [ErrorItem ''unknown variable''], ExecEnd 2 False]\<rparr>"
  by code_simp

text \<open>
  C2.  The queue is run in the order of submission, cancelled requests being skipped
  (\<open>drain_explicit\<close>), and as long as no blank cell is submitted at most one command is
  pending (\<open>one_pending_without_blank_cells\<close>).  A blank cell submitted while a command
  is running clears the active slot, so the next submission is started at once: two
  commands are pending in the pseudo terminal at the same time.
\<close>

theorem empty_cell_breaks_mutual_exclusion:
  "map (execution \<circ> pce) (pending (run no_variables (init 80)
     [Submit ''sleep 9'' ''u1'', Submit '''' ''u2'', Submit ''echo b'' ''u3''])) = [1, 3] \<and>
   effects (run no_variables (init 80)
     [Submit ''sleep 9'' ''u1'', Submit '''' ''u2'', Submit ''echo b'' ''u3'']) =
     [ExecStart 1, ClearOutput 1, PtyWriteCommand ''sleep 9'' 1,
      ExecStart 2, ClearOutput 2, ExecEnd 2 True,
      ExecStart 3, ClearOutput 3, PtyWriteCommand ''echo b'' 3]"
  by code_simp

text \<open>
  C3.  A cell whose lines are all blank ends with success and nothing is queued, emitted
  or written to the pseudo terminal (\<open>doExecution_empty\<close>), but line 89 also clears the
  active slot: here the command of the first cell is still pending when the blank cell is
  submitted, and the slot that held it is empty afterwards.
\<close>

theorem empty_cell_clears_active_slot:
  "isExecuting (run no_variables (init 80) [Submit ''sleep 9'' ''u1'']) =
     Some \<lparr>command = ''sleep 9'', execution = 1, uri = ''u1''\<rparr> \<and>
   commands_of [CHR '' '', LF, CHR 0x09] = [] \<and>
   step no_variables (run no_variables (init 80) [Submit ''sleep 9'' ''u1''])
       (Submit [CHR '' '', LF, CHR 0x09] ''u2'') =
     (run no_variables (init 80) [Submit ''sleep 9'' ''u1''])
       \<lparr>executionOrder := 2, isExecuting := None,
        effects := [ExecStart 1, ClearOutput 1, PtyWriteCommand ''sleep 9'' 1,
                    ExecStart 2, ClearOutput 2, ExecEnd 2 True]\<rparr>"
  by code_simp










text \<open>
  C7.  A chunk that the pseudo terminal delivers for an execution whose cancellation has
  been requested changes nothing: no \<open>data\<close> message is emitted and the transcript buffer
  stays as it is.
\<close>

theorem chunk_after_cancel_dropped:
  "ex \<in> cancelRequested st \<Longrightarrow> step upd st (PtyChunk ex data) = st"
  by (cases "pending_of ex st") (simp_all add: chunk_none chunk_dropped)

theorem chunk_after_cancel_dropped_witness:
  "1 \<in> cancelRequested (run no_variables (init 80) [Submit ''top'' ''u1'', Cancel 1]) \<and>
   pending_of 1 (run no_variables (init 80) [Submit ''top'' ''u1'', Cancel 1]) \<noteq> None \<and>
   step no_variables (run no_variables (init 80) [Submit ''top'' ''u1'', Cancel 1])
       (PtyChunk 1 ''x'')
     = run no_variables (init 80) [Submit ''top'' ''u1'', Cancel 1]"
proof -
  have h: "1 \<in> cancelRequested (run no_variables (init 80) [Submit ''top'' ''u1'', Cancel 1])"
    by code_simp
  have p: "pending_of 1 (run no_variables (init 80) [Submit ''top'' ''u1'', Cancel 1]) \<noteq> None"
    by code_simp
  from h p chunk_after_cancel_dropped [OF h, of no_variables "''x''"] show ?thesis
    by simp
qed




text \<open>
  C9 (as stated).  Removing a sequence can join an ESC in front of it with the characters
  behind it to a new sequence, which a second pass removes: \<open>strip\<close> is not idempotent.
\<close>

theorem strip_not_idempotent_counterexample:
  "strip ([ESC, ESC] @ ''[0m'' @ ''[0m'') = [ESC] @ ''[0m'' \<and>
   strip (strip ([ESC, ESC] @ ''[0m'' @ ''[0m'')) = []"
  by code_simp

text \<open>
  C9 (amended).  \<open>strip\<close> deletes whole recognised sequences and nothing else, and it is
  idempotent on every text in which each ESC begins a recognised sequence.
\<close>

theorem strip_deletes_sequences_only:
  "deletes s (strip s) \<and> (escapes_recognised s \<longrightarrow> strip (strip s) = strip s)"
  by (simp add: strip_def deletes_replace_all no_ESC_left replace_all_no_ESC)

theorem strip_deletes_sequences_only_witness:
  "escapes_recognised ([ESC] @ ''[1;31mred'' @ [ESC] @ ''[0m'') \<and>
   strip ([ESC] @ ''[1;31mred'' @ [ESC] @ ''[0m'') = ''red'' \<and>
   deletes ([ESC] @ ''[1;31mred'' @ [ESC] @ ''[0m'')
     (strip ([ESC] @ ''[1;31mred'' @ [ESC] @ ''[0m'')) \<and>
   strip (strip ([ESC] @ ''[1;31mred'' @ [ESC] @ ''[0m'')) =
     strip ([ESC] @ ''[1;31mred'' @ [ESC] @ ''[0m'')"
proof -
  let ?s = "[ESC] @ ''[1;31mred'' @ [ESC] @ ''[0m''"
  have h: "escapes_recognised ?s" by code_simp
  have e: "strip ?s = ''red''" by code_simp
  from strip_deletes_sequences_only [of ?s] h e show ?thesis by blast
qed



end
